theory Spec2Isabelle
  imports Main "HOL-Library.Multiset"
begin

section \<open>Values held by the container\<close>

text \<open>
  The wrapper stores Go values of type \<open>interface{}\<close>. What the code observes of such a
  value is its dynamic type (\<open>reflect.TypeOf\<close>, the verb \<open>%T\<close>, the method set used by
  the type assertions \<open>.(Initializer)\<close> and \<open>.(Cleaner)\<close>) and how it compares
  under \<open>==\<close>. A dynamic type is modelled by the text \<open>%T\<close> prints, its \<open>reflect.Kind\<close> and
  whether Go can compare values of it; two types are the same type when all three agree.
\<close>

datatype kind =
    KInvalid | KBool | KInt | KInt8 | KInt16 | KInt32 | KInt64
  | KUint | KUint8 | KUint16 | KUint32 | KUint64 | KUintptr
  | KFloat32 | KFloat64 | KComplex64 | KComplex128
  | KArray | KChan | KFunc | KInterface | KMap | KPtr | KSlice
  | KString | KStruct | KUnsafePointer

record rtype =
  type_name :: string
  type_kind :: kind
  type_comparable :: bool

text \<open>
  An interface value is nil or a value of a dynamic type. Three shapes of value are told
  apart by how Go compares them. \<open>Ref\<close> is a value compared by its payload alone: the
  address of a pointer or a channel, the data of an integer, a string, a boolean or of a
  float that is a number. \<open>NaN\<close> is a float or complex value that is not a number.
  \<open>Composite\<close> is a struct or an array, given by its fields or elements in source
  order, each with its own type (a field of interface type holds any value, nil too).
  The payload of a value of an uncomparable type is never looked at.
\<close>

datatype val = NilValue | Ref rtype nat | NaN rtype | Composite rtype "val list"

text \<open>\<open>reflect.TypeOf\<close>: the nil interface has no type.\<close>

fun TypeOf :: "val \<Rightarrow> rtype option" where
  "TypeOf NilValue = None"
| "TypeOf (Ref t a) = Some t"
| "TypeOf (NaN t) = Some t"
| "TypeOf (Composite t fs) = Some t"

text \<open>The verb \<open>%T\<close> of \<open>fmt\<close>.\<close>

fun fmtT :: "val \<Rightarrow> string" where
  "fmtT NilValue = ''<nil>''"
| "fmtT (Ref t a) = type_name t"
| "fmtT (NaN t) = type_name t"
| "fmtT (Composite t fs) = type_name t"

text \<open>
  What a \<open>panic\<close> carries: a formatted message (\<open>panic(fmt.Sprintf(...))\<close>), an error
  value (\<open>panic(err)\<close>, kept as its text), or a run-time error raised by Go itself.
\<close>

datatype panic = PanicString string | PanicError string | RuntimeError string

text \<open>
  \<open>==\<close> on two interface values. Two nil interfaces are equal; values of different
  dynamic types are not. For two values of one dynamic type Go panics when the type is
  not comparable (a map, a slice, a func, or a struct or array of such), and otherwise
  compares the data: payloads by equality; a NaN equals nothing, itself included;
  structs and arrays field by field in source order, stopping at the first field that
  differs, so that a field of interface type holding a map makes the comparison of a
  comparable struct panic when it is reached.
\<close>

fun iface_eq :: "val \<Rightarrow> val \<Rightarrow> panic + bool"
  and fields_eq :: "val list \<Rightarrow> val list \<Rightarrow> panic + bool" where
  "iface_eq (Ref t a) (Ref u b) =
     (if t = u then
        (if type_comparable t then Inr (a = b)
         else Inl (RuntimeError (''comparing uncomparable type '' @ type_name t)))
      else Inr False)"
| "iface_eq (Composite t fs) (Composite u gs) =
     (if t = u then
        (if type_comparable t then fields_eq fs gs
         else Inl (RuntimeError (''comparing uncomparable type '' @ type_name t)))
      else Inr False)"
| "iface_eq v w =
     (case TypeOf v of
        None \<Rightarrow> Inr (TypeOf w = None)
      | Some t \<Rightarrow>
          if TypeOf w = Some t then
            (if type_comparable t then Inr False
             else Inl (RuntimeError (''comparing uncomparable type '' @ type_name t)))
          else Inr False)"
| "fields_eq [] [] = Inr True"
| "fields_eq (f # fs) (h # gs) =
     (case iface_eq f h of
        Inl p \<Rightarrow> Inl p
      | Inr eq \<Rightarrow> if eq then fields_eq fs gs else Inr False)"
| "fields_eq fs gs = Inr False"

text \<open>\<open>inject.Object\<close>, as far as the wrapper reads and writes it.\<close>

record Object =
  Name :: string
  Value :: val

section \<open>The collaborators\<close>

text \<open>
  The graph of \<open>github.com/facebookgo/inject\<close> is not part of this repository. It is a
  parameter: a graph state of any type \<open>'g\<close> with the three operations the wrapper calls.
  \<open>Provide\<close> and \<open>Populate\<close> return the error text, if any, and the graph they leave.
\<close>

record 'g resolver =
  empty_graph :: 'g
  Provide :: "Object \<Rightarrow> 'g \<Rightarrow> string option \<times> 'g"
  Populate :: "'g \<Rightarrow> string option \<times> 'g"
  Objects :: "'g \<Rightarrow> Object list"

text \<open>
  The loop of \<open>initAsync\<close> starts one goroutine per entry, and the goroutine's closure
  reads the range variable \<open>obj\<close>. What it reads depends on the language version the
  module is built with, which the sources do not fix. From Go 1.22 the variable is per
  iteration, and the goroutine of iteration \<open>j\<close> reads entry \<open>j\<close>. Before Go 1.22 one
  variable is shared by all iterations, and the goroutine reads whatever entry the loop
  has reached when the goroutine runs: entry \<open>j\<close> or a later one, as the function given
  with \<open>Shared\<close> says (forced into that range). A goroutine is taken to read the
  variable once.
\<close>

datatype loopvar = PerIteration | Shared "Object list \<Rightarrow> nat \<Rightarrow> nat"

fun seen :: "loopvar \<Rightarrow> Object list \<Rightarrow> nat \<Rightarrow> Object" where
  "seen PerIteration objs j = objs ! j"
| "seen (Shared later) objs j = objs ! (min (max j (later objs j)) (length objs - 1))"

text \<open>
  The hooks are the caller's code. \<open>has_Init\<close> and \<open>has_Clean\<close> say whether a dynamic
  type has the method; \<open>Init\<close> and \<open>Clean\<close> give the error a call on a value returns
  (\<open>None\<close> is Go's nil error): a hook is a function of its receiver. The goroutines
  of one batch run in no fixed order: \<open>sched\<close> ranks the entries of a batch, and the
  goroutines run by ascending rank of the entry they read, each one as a block.
  \<open>loopvar\<close> is the language version's treatment of the range variable.
\<close>

record hooks =
  has_Init :: "rtype \<Rightarrow> bool"
  Init :: "val \<Rightarrow> string option"
  has_Clean :: "rtype \<Rightarrow> bool"
  Clean :: "val \<Rightarrow> string option"
  sched :: "Object list \<Rightarrow> Object \<Rightarrow> nat"
  loopvar :: loopvar

text \<open>The comma-ok type assertion \<open>v.(I)\<close>: false on the nil interface.\<close>

fun implements :: "(rtype \<Rightarrow> bool) \<Rightarrow> val \<Rightarrow> bool" where
  "implements has NilValue = False"
| "implements has (Ref t a) = has t"
| "implements has (NaN t) = has t"
| "implements has (Composite t fs) = has t"

section \<open>The wrapper\<close>

text \<open>
  What the program does beyond changing the wrapper is recorded as a trace, oldest event
  first: a call of the debug logger, a call of a hook, a line written to standard error.
\<close>

datatype event = Debugf string | InitCall val | CleanCall val | Stderr string

text \<open>
  \<open>InjectWrapper\<close>: the graph \<open>g\<close>, the batch list \<open>objects\<close> and the registration
  buffer \<open>tmpObjects\<close>. \<open>Logger\<close> is \<open>g.Logger != nil\<close>; \<open>trace\<close> is the record of
  effects and no field of the Go struct.
\<close>

record 'g InjectWrapper =
  g :: 'g
  Logger :: bool
  objects :: "Object list list"
  tmpObjects :: "Object list"
  trace :: "event list"

type_synonym 'g result = "panic option \<times> 'g InjectWrapper"

definition New :: "'g resolver \<Rightarrow> 'g InjectWrapper" where
  "New R = \<lparr>g = empty_graph R, Logger = False, objects = [], tmpObjects = [], trace = []\<rparr>"

definition NewDebug :: "'g resolver \<Rightarrow> 'g InjectWrapper" where
  "NewDebug R = (New R)\<lparr>Logger := True\<rparr>"

definition log :: "string \<Rightarrow> 'g InjectWrapper \<Rightarrow> 'g InjectWrapper" where
  "log msg i = (if Logger i then i\<lparr>trace := trace i @ [Debugf msg]\<rparr> else i)"

subsection \<open>Registration\<close>

definition WithObject :: "'g resolver \<Rightarrow> val \<Rightarrow> 'g InjectWrapper \<Rightarrow> 'g result" where
  "WithObject R object i =
     (let i1 = log (''Adding '' @ fmtT object) i;
          ob = \<lparr>Name = '''', Value = object\<rparr>
      in case Provide R ob (g i1) of
           (Some err, g') \<Rightarrow>
             (Some (PanicString (''Error providing object '' @ fmtT object @ '':'' @ err)),
              i1\<lparr>g := g'\<rparr>)
         | (None, g') \<Rightarrow> (None, i1\<lparr>g := g', tmpObjects := tmpObjects i1 @ [ob]\<rparr>))"

fun WithObjects :: "'g resolver \<Rightarrow> val list \<Rightarrow> 'g InjectWrapper \<Rightarrow> 'g result" where
  "WithObjects R [] i = (None, i)"
| "WithObjects R (obj # objs) i =
     (case WithObject R obj i of
        (Some p, i') \<Rightarrow> (Some p, i')
      | (None, i') \<Rightarrow> WithObjects R objs i')"

definition WithObjectOrErr ::
  "'g resolver \<Rightarrow> val \<Rightarrow> string option \<Rightarrow> 'g InjectWrapper \<Rightarrow> 'g result" where
  "WithObjectOrErr R object err i =
     (case err of
        Some e \<Rightarrow> (Some (PanicError e), i)
      | None \<Rightarrow>
         (let i1 = log (''Adding '' @ fmtT object) i;
              ob = \<lparr>Name = '''', Value = object\<rparr>
          in case Provide R ob (g i1) of
               (Some err, g') \<Rightarrow>
                 (Some (PanicString (''Error providing object '' @ fmtT object @ '':'' @ err)),
                  i1\<lparr>g := g'\<rparr>)
             | (None, g') \<Rightarrow> (None, i1\<lparr>g := g', tmpObjects := tmpObjects i1 @ [ob]\<rparr>)))"

definition WithNamedObject ::
  "'g resolver \<Rightarrow> string \<Rightarrow> val \<Rightarrow> 'g InjectWrapper \<Rightarrow> 'g result" where
  "WithNamedObject R name obj i =
     (let i1 = log (''Adding '' @ name @ '': '' @ fmtT obj) i;
          ob = \<lparr>Name = name, Value = obj\<rparr>
      in case Provide R ob (g i1) of
           (Some err, g') \<Rightarrow>
             (Some (PanicString
                (''Error providing named object '' @ name @ ''.'' @ fmtT obj @ '':'' @ err)),
              i1\<lparr>g := g'\<rparr>)
         | (None, g') \<Rightarrow> (None, i1\<lparr>g := g', tmpObjects := tmpObjects i1 @ [ob]\<rparr>))"

subsection \<open>Closing a batch\<close>

definition InitAsync :: "'g InjectWrapper \<Rightarrow> 'g InjectWrapper" where
  "InitAsync i =
     (if length (tmpObjects i) = 0 then i
      else i\<lparr>objects := objects i @ [tmpObjects i], tmpObjects := []\<rparr>)"

text \<open>The loop of \<open>InitSync\<close>: one \<open>append\<close> of a one-element batch per buffered entry.\<close>

fun append_singletons :: "Object list \<Rightarrow> 'g InjectWrapper \<Rightarrow> 'g InjectWrapper" where
  "append_singletons [] i = i"
| "append_singletons (obj # objs) i =
     append_singletons objs (i\<lparr>objects := objects i @ [[obj]]\<rparr>)"

definition InitSync :: "'g InjectWrapper \<Rightarrow> 'g InjectWrapper" where
  "InitSync i =
     (if length (tmpObjects i) = 0 then i
      else (append_singletons (tmpObjects i) i)\<lparr>tmpObjects := []\<rparr>)"

subsection \<open>Queries\<close>

fun batch_values :: "Object list \<Rightarrow> val list \<Rightarrow> val list" where
  "batch_values [] res = res"
| "batch_values (ob # objs) res = batch_values objs (res @ [Value ob])"

fun all_values :: "Object list list \<Rightarrow> val list \<Rightarrow> val list" where
  "all_values [] res = res"
| "all_values (objs # rest) res = all_values rest (batch_values objs res)"

definition AllObjects :: "'g InjectWrapper \<Rightarrow> val list" where
  "AllObjects i = all_values (objects i) []"

fun find_in_batch :: "rtype \<Rightarrow> string \<Rightarrow> Object list \<Rightarrow> val option" where
  "find_in_batch sampleType name [] = None"
| "find_in_batch sampleType name (obj # objs) =
     (if TypeOf (Value obj) = Some sampleType \<and> Name obj = name then Some (Value obj)
      else find_in_batch sampleType name objs)"

fun find_in_batches :: "rtype \<Rightarrow> string \<Rightarrow> Object list list \<Rightarrow> val option" where
  "find_in_batches sampleType name [] = None"
| "find_in_batches sampleType name (objs # rest) =
     (case find_in_batch sampleType name objs of
        Some v \<Rightarrow> Some v
      | None \<Rightarrow> find_in_batches sampleType name rest)"

text \<open>
  \<open>reflect.TypeOf(nil)\<close> is the nil \<open>reflect.Type\<close>, and calling \<open>Kind()\<close> on it is a
  nil dereference.
\<close>

definition MustGetNamedObject :: "'g InjectWrapper \<Rightarrow> val \<Rightarrow> string \<Rightarrow> panic + val" where
  "MustGetNamedObject i sample name =
     (case TypeOf sample of
        None \<Rightarrow> Inl (RuntimeError ''invalid memory address or nil pointer dereference'')
      | Some sampleType \<Rightarrow>
          if type_kind sampleType \<noteq> KPtr
          then Inl (PanicString (''Sample must be interface, found '' @ fmtT sample))
          else (case find_in_batches sampleType name (objects i) of
                  Some v \<Rightarrow> Inr v
                | None \<Rightarrow>
                    Inl (PanicString (''Object not found: '' @ name @ ''.'' @ fmtT sample))))"

definition MustGetObject :: "'g InjectWrapper \<Rightarrow> val \<Rightarrow> panic + val" where
  "MustGetObject i sample = MustGetNamedObject i sample ''''"

subsection \<open>The strict check\<close>

text \<open>
  The two inner loops of \<open>CheckNoImplicitObjects\<close> carry the flag \<open>oOK\<close> and never
  leave early: every entry is compared, also after a match.
\<close>

fun scan_batch :: "val \<Rightarrow> Object list \<Rightarrow> bool \<Rightarrow> panic + bool" where
  "scan_batch v [] oOK = Inr oOK"
| "scan_batch v (obj # objs) oOK =
     (case iface_eq (Value obj) v of
        Inl p \<Rightarrow> Inl p
      | Inr eq \<Rightarrow> scan_batch v objs (if eq then True else oOK))"

fun scan_batches :: "val \<Rightarrow> Object list list \<Rightarrow> bool \<Rightarrow> panic + bool" where
  "scan_batches v [] oOK = Inr oOK"
| "scan_batches v (objs # rest) oOK =
     (case scan_batch v objs oOK of
        Inl p \<Rightarrow> Inl p
      | Inr oOK' \<Rightarrow> scan_batches v rest oOK')"

fun check_objects :: "Object list \<Rightarrow> 'g InjectWrapper \<Rightarrow> 'g result" where
  "check_objects [] i = (None, i)"
| "check_objects (ob # rest) i =
     (case scan_batches (Value ob) (objects i) False of
        Inl p \<Rightarrow> (Some p, i)
      | Inr oOK \<Rightarrow>
          if oOK then check_objects rest (log (fmtT (Value ob) @ '' OK'' @ [CHR 0x0A]) i)
          else (Some (PanicString (fmtT (Value ob) @ '' not explicitly created'')), i))"

definition CheckNoImplicitObjects :: "'g resolver \<Rightarrow> 'g InjectWrapper \<Rightarrow> 'g result" where
  "CheckNoImplicitObjects R i = check_objects (Objects R (g i)) i"

subsection \<open>Initialization\<close>

text \<open>The verb \<open>%d\<close> on a length.\<close>

definition digit :: "nat \<Rightarrow> char" where
  "digit n = ''0123456789'' ! (n mod 10)"

fun fmtd :: "nat \<Rightarrow> string" where
  "fmtd n = (if n < 10 then [digit n] else fmtd (n div 10) @ [digit (n mod 10)])"

declare fmtd.simps [simp del]

text \<open>
  One goroutine of \<open>initAsync\<close>. The panic message formats \<open>obj\<close>, the
  \<open>*inject.Object\<close>, with \<open>%T\<close>, where the two log lines format \<open>obj.Value\<close>. The
  deferred log line runs on both ways out.
\<close>

definition init_unit :: "hooks \<Rightarrow> Object \<Rightarrow> 'g InjectWrapper \<Rightarrow> 'g result" where
  "init_unit H obj i =
     (if implements (has_Init H) (Value obj) then
        (let i1 = log (''Initializing '' @ fmtT (Value obj)) i;
             i2 = i1\<lparr>trace := trace i1 @ [InitCall (Value obj)]\<rparr>;
             i3 = log (''Initialized '' @ fmtT (Value obj)) i2
         in case Init H (Value obj) of
              Some err \<Rightarrow>
                (Some (PanicString
                   (''Error initializing privided object '' @ ''*inject.Object'' @ '':'' @ err)),
                 i3)
            | None \<Rightarrow> (None, i3))
      else (None, i))"

text \<open>
  The goroutines of one batch, in the order they run; a panic in one of them ends the
  program.
\<close>

fun run_units :: "hooks \<Rightarrow> Object list \<Rightarrow> 'g InjectWrapper \<Rightarrow> 'g result" where
  "run_units H [] i = (None, i)"
| "run_units H (obj # objs) i =
     (case init_unit H obj i of
        (Some p, i') \<Rightarrow> (Some p, i')
      | (None, i') \<Rightarrow> run_units H objs i')"

text \<open>
  The entries the goroutines of a batch read, in the order the goroutines were started;
  then \<open>initAsync\<close>, which runs them in the order \<open>sched\<close> gives.
\<close>

definition captured :: "hooks \<Rightarrow> Object list \<Rightarrow> Object list" where
  "captured H objs = map (seen (loopvar H) objs) [0..<length objs]"

definition initAsync :: "hooks \<Rightarrow> Object list \<Rightarrow> 'g InjectWrapper \<Rightarrow> 'g result" where
  "initAsync H objs i =
     run_units H (sort_key (sched H objs) (captured H objs))
       (if length objs > 1
        then log (''Asynchronously initializing: '' @ concat (map (\<lambda>obj. fmtT (Value obj)) objs)) i
        else i)"

fun init_batches :: "hooks \<Rightarrow> Object list list \<Rightarrow> 'g InjectWrapper \<Rightarrow> 'g result" where
  "init_batches H [] i = (None, i)"
| "init_batches H (objs # rest) i =
     (case initAsync H objs i of
        (Some p, i') \<Rightarrow> (Some p, i')
      | (None, i') \<Rightarrow> init_batches H rest i')"

definition InitializeGraphWithImplicitObjects ::
  "'g resolver \<Rightarrow> hooks \<Rightarrow> 'g InjectWrapper \<Rightarrow> 'g result" where
  "InitializeGraphWithImplicitObjects R H i =
     (let i1 = InitSync i;
          i2 = log (''Initializing '' @ fmtd (length (objects i1)) @ '' objects'') i1
      in case Populate R (g i2) of
           (Some err, g') \<Rightarrow>
             (Some (PanicString (''Error populating graph: '' @ err)), i2\<lparr>g := g'\<rparr>)
         | (None, g') \<Rightarrow> init_batches H (objects i2) (i2\<lparr>g := g'\<rparr>))"

definition InitializeGraph :: "'g resolver \<Rightarrow> hooks \<Rightarrow> 'g InjectWrapper \<Rightarrow> 'g result" where
  "InitializeGraph R H i =
     (case InitializeGraphWithImplicitObjects R H i of
        (Some p, i') \<Rightarrow> (Some p, i')
      | (None, i') \<Rightarrow> CheckNoImplicitObjects R i')"

subsection \<open>Teardown\<close>

fun clean_all :: "hooks \<Rightarrow> val list \<Rightarrow> 'g InjectWrapper \<Rightarrow> 'g InjectWrapper" where
  "clean_all H [] i = i"
| "clean_all H (obj # objs) i =
     clean_all H objs
       (if implements (has_Clean H) obj then
          (let i1 = log (''Cleaning '' @ fmtT obj) i;
               i2 = i1\<lparr>trace := trace i1 @ [CleanCall obj]\<rparr>
           in case Clean H obj of
                Some err \<Rightarrow>
                  i2\<lparr>trace := trace i2 @
                    [Stderr (''Error cleaning '' @ fmtT obj @ '': '' @ err @ [CHR 0x0A])]\<rparr>
              | None \<Rightarrow> i2)
        else i)"

text \<open>\<open>Stop\<close> has no \<open>panic\<close> of its own: it always returns.\<close>

definition Stop :: "hooks \<Rightarrow> 'g InjectWrapper \<Rightarrow> 'g result" where
  "Stop H i = (None, clean_all H (AllObjects i) i)"

section \<open>Observations and the specification's wording\<close>

text \<open>The test of the inner loop of \<open>MustGetNamedObject\<close>.\<close>

definition matches :: "rtype \<Rightarrow> string \<Rightarrow> Object \<Rightarrow> bool" where
  "matches sampleType name obj = (TypeOf (Value obj) = Some sampleType \<and> Name obj = name)"

text \<open>
  What the strict check needs of one object of the graph: that no comparison of a value
  of the batch list with it panics, and that one of them finds it equal.
\<close>

definition compares :: "val \<Rightarrow> Object list \<Rightarrow> bool" where
  "compares v entries = list_all (\<lambda>e. \<not> isl (iface_eq (Value e) v)) entries"

definition equals_some :: "val \<Rightarrow> Object list \<Rightarrow> bool" where
  "equals_some v entries = list_ex (\<lambda>e. iface_eq (Value e) v = Inr True) entries"

definition found_by_eq :: "val \<Rightarrow> Object list \<Rightarrow> bool" where
  "found_by_eq v entries = (compares v entries \<and> equals_some v entries)"

text \<open>How often \<open>Init\<close> was called on a value, read off a trace.\<close>

definition Init_calls :: "val \<Rightarrow> event list \<Rightarrow> nat" where
  "Init_calls v tr = count_list tr (InitCall v)"

text \<open>The entries of a list that hold the value \<open>v\<close>, counted when \<open>v\<close> has \<open>Init\<close>.\<close>

definition inits_due :: "hooks \<Rightarrow> val \<Rightarrow> Object list \<Rightarrow> nat" where
  "inits_due H v objs =
     length (filter (\<lambda>ob. Value ob = v \<and> implements (has_Init H) v) objs)"

text \<open>The values \<open>Clean\<close> was called on and the lines written to standard error, in order.\<close>

fun clean_calls :: "event list \<Rightarrow> val list" where
  "clean_calls [] = []"
| "clean_calls (CleanCall v # es) = v # clean_calls es"
| "clean_calls (e # es) = clean_calls es"

fun stderr_lines :: "event list \<Rightarrow> string list" where
  "stderr_lines [] = []"
| "stderr_lines (Stderr s # es) = s # stderr_lines es"
| "stderr_lines (e # es) = stderr_lines es"

text \<open>
  The specification's report of a cleanup error: the type and the error text, one line
  for a call that returns an error and nothing for one that returns nil.
\<close>

definition clean_report :: "hooks \<Rightarrow> val \<Rightarrow> string list" where
  "clean_report H v =
     (case Clean H v of
        Some err \<Rightarrow> [''Error cleaning '' @ fmtT v @ '': '' @ err @ [CHR 0x0A]]
      | None \<Rightarrow> [])"

text \<open>
  The specification's \<open>closeSyncBatch\<close>: every buffered entry becomes a batch of its
  own, in buffer order, behind the batches already there, and the buffer is cleared.
\<close>

definition singleton_batches :: "'g InjectWrapper \<Rightarrow> 'g InjectWrapper" where
  "singleton_batches i =
     i\<lparr>objects := objects i @ map (\<lambda>ob. [ob]) (tmpObjects i), tmpObjects := []\<rparr>"

text \<open>
  Steps 2 and 3 of the specification's scheduler, on a wrapper whose batches are closed:
  populate the graph, then initialize batch after batch.
\<close>

definition populate_and_init :: "'g resolver \<Rightarrow> hooks \<Rightarrow> 'g InjectWrapper \<Rightarrow> 'g result" where
  "populate_and_init R H i =
     (let i2 = log (''Initializing '' @ fmtd (length (objects i)) @ '' objects'') i
      in case Populate R (g i2) of
           (Some err, g') \<Rightarrow>
             (Some (PanicString (''Error populating graph: '' @ err)), i2\<lparr>g := g'\<rparr>)
         | (None, g') \<Rightarrow> init_batches H (objects i2) (i2\<lparr>g := g'\<rparr>))"

section \<open>Concrete scenarios\<close>

text \<open>
  Types and values after the repository's tests: a pointer type is comparable, a map
  type is not.
\<close>

definition ptr_type :: "string \<Rightarrow> rtype" where
  "ptr_type n = \<lparr>type_name = n, type_kind = KPtr, type_comparable = True\<rparr>"

definition struct_type :: "string \<Rightarrow> rtype" where
  "struct_type n = \<lparr>type_name = n, type_kind = KStruct, type_comparable = True\<rparr>"

definition map_type :: "string \<Rightarrow> rtype" where
  "map_type n = \<lparr>type_name = n, type_kind = KMap, type_comparable = False\<rparr>"

definition initializable :: val where
  "initializable = Ref (ptr_type ''*diwrapper.InitializableStruct'') 1"

definition stoppable :: val where
  "stoppable = Ref (ptr_type ''*diwrapper.StoppableStruct'') 2"

definition aaa :: val where
  "aaa = Ref (ptr_type ''*diwrapper.Aaa'') 3"

definition bbb :: val where
  "bbb = Ref (ptr_type ''*diwrapper.Bbb'') 4"

definition settings :: val where
  "settings = Ref (map_type ''map[string]string'') 5"

text \<open>
  A graph that is the list of the objects provided: it accepts every object, wires
  nothing and creates nothing.
\<close>

definition list_resolver :: "Object list resolver" where
  "list_resolver =
     \<lparr>empty_graph = [], Provide = (\<lambda>ob gr. (None, gr @ [ob])),
      Populate = (\<lambda>gr. (None, gr)), Objects = (\<lambda>gr. gr)\<rparr>"

text \<open>The same graph, except that \<open>Populate\<close> creates one object to satisfy a field.\<close>

definition creating_resolver :: "val \<Rightarrow> Object list resolver" where
  "creating_resolver v =
     list_resolver\<lparr>Populate := (\<lambda>gr. (None, gr @ [\<lparr>Name = '''', Value = v\<rparr>]))\<rparr>"

text \<open>
  The hooks of the test file's \<open>InitializableStruct\<close> and \<open>StoppableStruct\<close>, with the
  errors they return as parameters.
\<close>

definition test_hooks :: "string option \<Rightarrow> string option \<Rightarrow> hooks" where
  "test_hooks init_err clean_err =
     \<lparr>has_Init = (\<lambda>t. type_name t = ''*diwrapper.InitializableStruct''),
      Init = (\<lambda>v. init_err),
      has_Clean = (\<lambda>t. type_name t = ''*diwrapper.StoppableStruct''),
      Clean = (\<lambda>v. clean_err),
      sched = (\<lambda>objs ob. 0),
      loopvar = PerIteration\<rparr>"

text \<open>
  The same hooks in a build before Go 1.22, where every goroutine of a batch runs after
  the loop has ended and reads the last entry.
\<close>

definition old_go_hooks :: "string option \<Rightarrow> string option \<Rightarrow> hooks" where
  "old_go_hooks init_err clean_err =
     (test_hooks init_err clean_err)\<lparr>loopvar := Shared (\<lambda>objs j. length objs - 1)\<rparr>"

text \<open>A named \<open>float64\<close> that is not a number.\<close>

definition not_a_number :: val where
  "not_a_number = NaN \<lparr>type_name = ''float64'', type_kind = KFloat64, type_comparable = True\<rparr>"

text \<open>
  A struct of a comparable type, \<open>struct { Extra interface{} }\<close>, whose field holds a
  map.
\<close>

definition boxed_map :: val where
  "boxed_map =
     Composite \<lparr>type_name = ''diwrapper.Box'', type_kind = KStruct, type_comparable = True\<rparr>
       [Ref (map_type ''map[string]string'') 6]"

section \<open>The debug log\<close>

lemma log_fields [simp]:
  "g (log m i) = g i" "Logger (log m i) = Logger i"
  "objects (log m i) = objects i" "tmpObjects (log m i) = tmpObjects i"
  by (simp_all add: log_def)

lemma trace_log: "trace (log m i) = trace i @ (if Logger i then [Debugf m] else [])"
  by (simp add: log_def)

lemma log_eq: "log m i = i\<lparr>trace := trace i @ (if Logger i then [Debugf m] else [])\<rparr>"
  by (simp add: log_def)

section \<open>Registration\<close>

lemma WithObject_None:
  assumes "WithObject R v i = (None, i')"
  shows "objects i' = objects i \<and> tmpObjects i' = tmpObjects i @ [\<lparr>Name = '''', Value = v\<rparr>]"
  using assms
  by (cases "Provide R \<lparr>Name = '''', Value = v\<rparr> (g i)")
     (auto simp: WithObject_def Let_def split: option.splits)

text \<open>
  Registrations alone never touch the batch list: they fill the buffer, in call order.
\<close>

lemma WithObjects_None:
  "WithObjects R vs i = (None, i') \<Longrightarrow>
     objects i' = objects i \<and>
     tmpObjects i' = tmpObjects i @ map (\<lambda>v. \<lparr>Name = '''', Value = v\<rparr>) vs"
proof (induction vs arbitrary: i)
  case Nil
  then show ?case by simp
next
  case (Cons v vs)
  obtain p j where w: "WithObject R v i = (p, j)" by (cases "WithObject R v i")
  show ?case
  proof (cases p)
    case None
    with w Cons.prems have "WithObjects R vs j = (None, i')" by simp
    from Cons.IH[OF this] WithObject_None[of R v i j] w None show ?thesis by simp
  next
    case (Some a)
    with w Cons.prems show ?thesis by simp
  qed
qed

text \<open>
  Claim C7. \<open>WithObjectOrErr\<close> called with a non-nil error panics with that error and
  returns the wrapper as it was: the graph, the buffer and every other field are
  untouched, and nothing is logged. Called with a nil error it is \<open>WithObject\<close>.
\<close>

theorem WithObjectOrErr_spec:
  "WithObjectOrErr R object (Some e) i = (Some (PanicError e), i) \<and>
   WithObjectOrErr R object None i = WithObject R object i"
  by (simp add: WithObjectOrErr_def WithObject_def)

section \<open>Closing a batch\<close>

text \<open>
  Claim C8. With entries in the buffer, \<open>InitAsync\<close> appends the whole buffer as one
  batch behind the batches already there and empties the buffer; with an empty buffer it
  returns the wrapper unchanged.
\<close>

theorem InitAsync_spec:
  "(tmpObjects i \<noteq> [] \<longrightarrow>
      InitAsync i = i\<lparr>objects := objects i @ [tmpObjects i], tmpObjects := []\<rparr>) \<and>
   (tmpObjects i = [] \<longrightarrow> InitAsync i = i)"
  by (simp add: InitAsync_def)

theorem InitAsync_spec_witness:
  "InitAsync \<lparr>g = (), Logger = False, objects = [[\<lparr>Name = ''a'', Value = aaa\<rparr>]],
      tmpObjects = [\<lparr>Name = '''', Value = bbb\<rparr>, \<lparr>Name = '''', Value = stoppable\<rparr>],
      trace = []\<rparr> =
   \<lparr>g = (), Logger = False,
    objects = [[\<lparr>Name = ''a'', Value = aaa\<rparr>],
               [\<lparr>Name = '''', Value = bbb\<rparr>, \<lparr>Name = '''', Value = stoppable\<rparr>]],
    tmpObjects = [], trace = []\<rparr> \<and>
   InitAsync \<lparr>g = (), Logger = False, objects = [[\<lparr>Name = ''a'', Value = aaa\<rparr>]],
      tmpObjects = [], trace = []\<rparr> =
   \<lparr>g = (), Logger = False, objects = [[\<lparr>Name = ''a'', Value = aaa\<rparr>]],
    tmpObjects = [], trace = []\<rparr>"
  using
    InitAsync_spec[of "\<lparr>g = (), Logger = False, objects = [[\<lparr>Name = ''a'', Value = aaa\<rparr>]],
      tmpObjects = [\<lparr>Name = '''', Value = bbb\<rparr>, \<lparr>Name = '''', Value = stoppable\<rparr>],
      trace = []\<rparr>"]
    InitAsync_spec[of "\<lparr>g = (), Logger = False, objects = [[\<lparr>Name = ''a'', Value = aaa\<rparr>]],
      tmpObjects = [], trace = []\<rparr>"]
  by simp

lemma append_singletons_eq:
  "append_singletons xs i = i\<lparr>objects := objects i @ map (\<lambda>ob. [ob]) xs\<rparr>"
  by (induction xs arbitrary: i) simp_all

lemma InitSync_eq: "InitSync i = singleton_batches i"
  by (simp add: InitSync_def append_singletons_eq singleton_batches_def)

lemma InitSync_InitSync: "InitSync (InitSync i) = InitSync i"
  by (simp add: InitSync_def)

lemma InitSync_fields [simp]:
  "g (InitSync i) = g i" "Logger (InitSync i) = Logger i" "trace (InitSync i) = trace i"
  "tmpObjects (InitSync i) = []"
  "objects (InitSync i) = objects i @ map (\<lambda>ob. [ob]) (tmpObjects i)"
  by (simp_all add: InitSync_eq singleton_batches_def)

text \<open>
  Claim C10. Both closing operations leave the buffer empty, and a second closing call of
  either kind, directly after a first of either kind, returns the wrapper the first one
  left: same batch list, same everything else.
\<close>

theorem batch_closing_twice:
  "tmpObjects (InitAsync i) = [] \<and> tmpObjects (InitSync i) = [] \<and>
   InitAsync (InitAsync i) = InitAsync i \<and> InitSync (InitAsync i) = InitAsync i \<and>
   InitAsync (InitSync i) = InitSync i \<and> InitSync (InitSync i) = InitSync i"
  by (simp add: InitAsync_def InitSync_def)

lemma IGWIO_InitSync:
  "InitializeGraphWithImplicitObjects R H (InitSync i) = InitializeGraphWithImplicitObjects R H i"
  unfolding InitializeGraphWithImplicitObjects_def InitSync_InitSync by (rule refl)

lemma IGWIO_populate_and_init:
  "InitializeGraphWithImplicitObjects R H i = populate_and_init R H (InitSync i)"
  unfolding InitializeGraphWithImplicitObjects_def populate_and_init_def Let_def by (rule refl)

text \<open>
  Claim C3. Whatever was registered and not yet closed, initializing directly is
  initializing after \<open>InitSync\<close>, for the relaxed and for the strict entry point alike.
  \<open>InitSync\<close> is the specification's \<open>closeSyncBatch\<close>: each buffered entry becomes a
  batch of its own, in registration order; and the initialization is \<open>Populate\<close> and the
  loop over the batches, run on the wrapper with these batches in place.
\<close>

theorem default_path_is_closeSyncBatch:
  "InitSync i = singleton_batches i \<and>
   InitializeGraphWithImplicitObjects R H i = populate_and_init R H (singleton_batches i) \<and>
   InitializeGraphWithImplicitObjects R H (InitSync i) = InitializeGraphWithImplicitObjects R H i \<and>
   InitializeGraph R H (InitSync i) = InitializeGraph R H i"
proof -
  have a: "InitSync i = singleton_batches i" by (rule InitSync_eq)
  have b: "InitializeGraphWithImplicitObjects R H i = populate_and_init R H (singleton_batches i)"
    using IGWIO_populate_and_init[of R H i] by (simp only: a)
  have c: "InitializeGraph R H (InitSync i) = InitializeGraph R H i"
    by (simp only: InitializeGraph_def IGWIO_InitSync)
  show ?thesis using a b c IGWIO_InitSync[of R H i] by blast
qed

section \<open>Queries\<close>

lemma batch_values_eq: "batch_values objs res = res @ map Value objs"
  by (induction objs arbitrary: res) simp_all

lemma all_values_eq: "all_values bs res = res @ map Value (concat bs)"
  by (induction bs arbitrary: res) (simp_all add: batch_values_eq)

lemma AllObjects_eq: "AllObjects i = map Value (concat (objects i))"
  by (simp add: AllObjects_def all_values_eq)

lemma find_in_batch_eq:
  "find_in_batch t name objs = map_option Value (find (matches t name) objs)"
  by (induction objs) (simp_all add: matches_def)

lemma find_app:
  "find P (xs @ ys) = (case find P xs of None \<Rightarrow> find P ys | Some x \<Rightarrow> Some x)"
  by (induction xs) simp_all

lemma find_in_batches_eq:
  "find_in_batches t name bs = map_option Value (find (matches t name) (concat bs))"
proof (induction bs)
  case Nil
  show ?case by simp
next
  case (Cons b bs)
  show ?case
    by (cases "find (matches t name) b") (simp_all add: find_in_batch_eq Cons.IH find_app)
qed

lemma find_first:
  "\<forall>x\<in>set pre. \<not> P x \<Longrightarrow> P e \<Longrightarrow> find P (pre @ e # post) = Some e"
  by (induction pre) simp_all

text \<open>
  Claim C6. \<open>MustGetNamedObject\<close> panics on a sample that is the nil interface or whose
  kind is not pointer. On a pointer sample it returns the value of the first entry of the
  batch list, read batch after batch, whose value has the sample's type and whose name is
  the given name (so the empty name finds unnamed entries only), and panics when there is
  no such entry. \<open>MustGetObject\<close> is the query with the empty name.
\<close>

theorem MustGetNamedObject_spec:
  "(TypeOf sample = None \<longrightarrow> (\<exists>p. MustGetNamedObject i sample name = Inl p)) \<and>
   (\<forall>t. TypeOf sample = Some t \<and> type_kind t \<noteq> KPtr \<longrightarrow>
      MustGetNamedObject i sample name =
        Inl (PanicString (''Sample must be interface, found '' @ fmtT sample))) \<and>
   (\<forall>t. TypeOf sample = Some t \<and> type_kind t = KPtr \<longrightarrow>
      MustGetNamedObject i sample name =
        (case find (matches t name) (concat (objects i)) of
           Some ob \<Rightarrow> Inr (Value ob)
         | None \<Rightarrow> Inl (PanicString (''Object not found: '' @ name @ ''.'' @ fmtT sample)))) \<and>
   MustGetObject i sample = MustGetNamedObject i sample ''''"
  by (auto simp: MustGetNamedObject_def MustGetObject_def find_in_batches_eq split: option.splits)

text \<open>
  The test \<open>TestNamed\<close>: \<open>Aaa\<close> registered under the name \<open>aaa\<close>, \<open>Bbb\<close> unnamed. A
  struct sample is refused, the named query finds \<open>Aaa\<close>, the unnamed one does not.
\<close>

theorem MustGetNamedObject_spec_witness:
  "MustGetNamedObject
     \<lparr>g = (), Logger = False,
      objects = [[\<lparr>Name = ''aaa'', Value = aaa\<rparr>], [\<lparr>Name = '''', Value = bbb\<rparr>]],
      tmpObjects = [], trace = []\<rparr>
     (Ref (ptr_type ''*diwrapper.Aaa'') 77) ''aaa'' = Inr aaa \<and>
   MustGetNamedObject
     \<lparr>g = (), Logger = False,
      objects = [[\<lparr>Name = ''aaa'', Value = aaa\<rparr>], [\<lparr>Name = '''', Value = bbb\<rparr>]],
      tmpObjects = [], trace = []\<rparr>
     (Ref (ptr_type ''*diwrapper.Aaa'') 77) '''' =
       Inl (PanicString ''Object not found: .*diwrapper.Aaa'') \<and>
   MustGetNamedObject
     \<lparr>g = (), Logger = False,
      objects = [[\<lparr>Name = ''aaa'', Value = aaa\<rparr>], [\<lparr>Name = '''', Value = bbb\<rparr>]],
      tmpObjects = [], trace = []\<rparr>
     (Ref (struct_type ''diwrapper.Aaa'') 78) ''aaa'' =
       Inl (PanicString ''Sample must be interface, found diwrapper.Aaa'')"
  using
    MustGetNamedObject_spec[of "Ref (ptr_type ''*diwrapper.Aaa'') 77"
      "\<lparr>g = (), Logger = False,
        objects = [[\<lparr>Name = ''aaa'', Value = aaa\<rparr>], [\<lparr>Name = '''', Value = bbb\<rparr>]],
        tmpObjects = [], trace = []\<rparr>" "''aaa''"]
    MustGetNamedObject_spec[of "Ref (ptr_type ''*diwrapper.Aaa'') 77"
      "\<lparr>g = (), Logger = False,
        objects = [[\<lparr>Name = ''aaa'', Value = aaa\<rparr>], [\<lparr>Name = '''', Value = bbb\<rparr>]],
        tmpObjects = [], trace = []\<rparr>" "''''"]
    MustGetNamedObject_spec[of "Ref (struct_type ''diwrapper.Aaa'') 78"
      "\<lparr>g = (), Logger = False,
        objects = [[\<lparr>Name = ''aaa'', Value = aaa\<rparr>], [\<lparr>Name = '''', Value = bbb\<rparr>]],
        tmpObjects = [], trace = []\<rparr>" "''aaa''"]
  by (simp add: matches_def ptr_type_def struct_type_def aaa_def bbb_def)

text \<open>
  Claim C9. When several entries have the sample's type and the given name, the query
  returns the value of the one that comes first in the batch list read batch after batch:
  whatever follows that entry has no influence on the result.
\<close>

theorem MustGetNamedObject_first_match:
  assumes "TypeOf sample = Some t" and "type_kind t = KPtr"
    and "concat (objects i) = pre @ e # post"
    and "\<forall>x\<in>set pre. \<not> matches t name x" and "matches t name e"
  shows "MustGetNamedObject i sample name = Inr (Value e)"
  using assms by (simp add: MustGetNamedObject_def find_in_batches_eq find_first)

theorem MustGetNamedObject_first_match_witness:
  "MustGetNamedObject
     \<lparr>g = (), Logger = False,
      objects = [[\<lparr>Name = '''', Value = bbb\<rparr>, \<lparr>Name = ''x'', Value = aaa\<rparr>],
                 [\<lparr>Name = ''x'', Value = Ref (ptr_type ''*diwrapper.Aaa'') 9\<rparr>]],
      tmpObjects = [], trace = []\<rparr>
     (Ref (ptr_type ''*diwrapper.Aaa'') 77) ''x'' = Inr aaa"
proof -
  let ?t = "ptr_type ''*diwrapper.Aaa''"
  let ?i = "\<lparr>g = (), Logger = False,
      objects = [[\<lparr>Name = '''', Value = bbb\<rparr>, \<lparr>Name = ''x'', Value = aaa\<rparr>],
                 [\<lparr>Name = ''x'', Value = Ref ?t 9\<rparr>]],
      tmpObjects = [], trace = []\<rparr>"
  let ?e = "\<lparr>Name = ''x'', Value = aaa\<rparr>"
  have h1: "TypeOf (Ref ?t 77) = Some ?t" by simp
  have h2: "type_kind ?t = KPtr" by (simp add: ptr_type_def)
  have h3: "concat (objects ?i) = [\<lparr>Name = '''', Value = bbb\<rparr>] @ ?e # [\<lparr>Name = ''x'', Value = Ref ?t 9\<rparr>]"
    by simp
  have h4: "\<forall>x\<in>set [\<lparr>Name = '''', Value = bbb\<rparr>]. \<not> matches ?t ''x'' x"
    by (simp add: matches_def)
  have h5: "matches ?t ''x'' ?e" by (simp add: matches_def aaa_def)
  show ?thesis using MustGetNamedObject_first_match[OF h1 h2 h3 h4 h5] by simp
qed

section \<open>Teardown\<close>

lemma clean_calls_append: "clean_calls (xs @ ys) = clean_calls xs @ clean_calls ys"
  by (induction xs rule: clean_calls.induct) simp_all

lemma stderr_lines_append: "stderr_lines (xs @ ys) = stderr_lines xs @ stderr_lines ys"
  by (induction xs rule: stderr_lines.induct) simp_all

lemma clean_all_trace:
  "\<exists>ev. clean_all H vs i = i\<lparr>trace := trace i @ ev\<rparr> \<and>
     clean_calls ev = filter (implements (has_Clean H)) vs \<and>
     stderr_lines ev = concat (map (clean_report H) (filter (implements (has_Clean H)) vs))"
proof (induction vs arbitrary: i)
  case Nil
  have "clean_all H [] i = i\<lparr>trace := trace i @ []\<rparr>" by simp
  then show ?case by (intro exI[of _ "[]"]) simp
next
  case (Cons v vs)
  let ?ev1 = "if implements (has_Clean H) v
     then (if Logger i then [Debugf (''Cleaning '' @ fmtT v)] else []) @ [CleanCall v] @
          map Stderr (clean_report H v)
     else []"
  let ?i1 = "i\<lparr>trace := trace i @ ?ev1\<rparr>"
  have step: "clean_all H (v # vs) i = clean_all H vs ?i1"
    by (cases "Logger i"; cases "Clean H v") (simp_all add: log_eq clean_report_def)
  have c1: "clean_calls ?ev1 = filter (implements (has_Clean H)) [v]"
    by (cases "Clean H v") (simp_all add: clean_report_def)
  have s1: "stderr_lines ?ev1 =
      concat (map (clean_report H) (filter (implements (has_Clean H)) [v]))"
    by (cases "Clean H v") (simp_all add: clean_report_def)
  from Cons.IH[of ?i1] obtain ev2 where
    r: "clean_all H vs ?i1 = ?i1\<lparr>trace := trace ?i1 @ ev2\<rparr>"
    and c2: "clean_calls ev2 = filter (implements (has_Clean H)) vs"
    and s2: "stderr_lines ev2 =
      concat (map (clean_report H) (filter (implements (has_Clean H)) vs))"
    by blast
  have "clean_all H (v # vs) i = i\<lparr>trace := trace i @ (?ev1 @ ev2)\<rparr>"
    using step r by simp
  moreover have "clean_calls (?ev1 @ ev2) = filter (implements (has_Clean H)) (v # vs)"
    using c1 c2 by (simp add: clean_calls_append)
  moreover have "stderr_lines (?ev1 @ ev2) =
      concat (map (clean_report H) (filter (implements (has_Clean H)) (v # vs)))"
    using s1 s2 by (simp add: stderr_lines_append)
  ultimately show ?case by blast
qed

text \<open>
  Claim C4. \<open>Stop\<close> always returns. It changes nothing but the trace, and what it adds
  to the trace holds one call of \<open>Clean\<close> for every value of the batch list that has the
  method, in the order of the batch list read batch after batch, whatever errors the
  calls return; and one line on standard error, with the type and the error text, for
  every call that returned an error, in the same order.
\<close>

theorem Stop_cleans_all:
  "fst (Stop H i) = None \<and>
   (\<exists>ev. snd (Stop H i) = i\<lparr>trace := trace i @ ev\<rparr> \<and>
      clean_calls ev = filter (implements (has_Clean H)) (map Value (concat (objects i))) \<and>
      stderr_lines ev =
        concat (map (clean_report H)
          (filter (implements (has_Clean H)) (map Value (concat (objects i))))))"
  using clean_all_trace[of H "AllObjects i" i] by (simp add: Stop_def AllObjects_eq)

text \<open>
  Two objects whose \<open>Clean\<close> fails, in one batch behind an object without the method:
  both are cleaned and both errors are reported.
\<close>

lemma Stop_example:
  "Stop (test_hooks None (Some ''busy''))
     \<lparr>g = (), Logger = False,
      objects = [[\<lparr>Name = '''', Value = aaa\<rparr>, \<lparr>Name = '''', Value = stoppable\<rparr>],
                 [\<lparr>Name = ''s'', Value = Ref (ptr_type ''*diwrapper.StoppableStruct'') 8\<rparr>]],
      tmpObjects = [], trace = []\<rparr> =
   (None,
    \<lparr>g = (), Logger = False,
      objects = [[\<lparr>Name = '''', Value = aaa\<rparr>, \<lparr>Name = '''', Value = stoppable\<rparr>],
                 [\<lparr>Name = ''s'', Value = Ref (ptr_type ''*diwrapper.StoppableStruct'') 8\<rparr>]],
      tmpObjects = [],
      trace = [CleanCall stoppable,
               Stderr (''Error cleaning *diwrapper.StoppableStruct: busy'' @ [CHR 0x0A]),
               CleanCall (Ref (ptr_type ''*diwrapper.StoppableStruct'') 8),
               Stderr (''Error cleaning *diwrapper.StoppableStruct: busy'' @ [CHR 0x0A])]\<rparr>)"
  by (simp add: Stop_def AllObjects_def test_hooks_def aaa_def stoppable_def ptr_type_def
      log_def Let_def)

section \<open>Initialization\<close>

lemma Init_calls_simps [simp]:
  "Init_calls v [] = 0"
  "Init_calls v (tr @ tr') = Init_calls v tr + Init_calls v tr'"
  "Init_calls v (Debugf m # tr) = Init_calls v tr"
  "Init_calls v (InitCall w # tr) = (if w = v then 1 else 0) + Init_calls v tr"
  by (simp_all add: Init_calls_def)

lemma inits_due_Cons: "inits_due H v (ob # objs) = inits_due H v [ob] + inits_due H v objs"
  by (simp add: inits_due_def)

lemma inits_due_append: "inits_due H v (xs @ ys) = inits_due H v xs + inits_due H v ys"
  by (simp add: inits_due_def)

lemma inits_due_mset: "mset xs = mset ys \<Longrightarrow> inits_due H v xs = inits_due H v ys"
  unfolding inits_due_def by (metis mset_filter size_mset)

lemma inits_due_count:
  "inits_due H v objs = (if implements (has_Init H) v then count_list (map Value objs) v else 0)"
  by (induction objs) (auto simp: inits_due_def)

subsection \<open>One goroutine\<close>

lemma init_unit_panic:
  assumes "implements (has_Init H) (Value ob)" and "Init H (Value ob) = Some err"
  shows "fst (init_unit H ob i) =
           Some (PanicString (''Error initializing privided object *inject.Object:'' @ err))"
  using assms by (simp add: init_unit_def Let_def)

lemma init_unit_returns:
  "fst (init_unit H ob i) = None \<longleftrightarrow>
     \<not> (implements (has_Init H) (Value ob) \<and> Init H (Value ob) \<noteq> None)"
  by (auto simp: init_unit_def Let_def split: option.splits)

lemma init_unit_ok:
  assumes "implements (has_Init H) (Value ob) \<longrightarrow> Init H (Value ob) = None"
  shows "\<exists>ev. init_unit H ob i = (None, i\<lparr>trace := trace i @ ev\<rparr>) \<and>
           (\<forall>v. Init_calls v ev = inits_due H v [ob])"
proof (cases "implements (has_Init H) (Value ob)")
  case True
  let ?ev = "(if Logger i then [Debugf (''Initializing '' @ fmtT (Value ob))] else []) @
     [InitCall (Value ob)] @
     (if Logger i then [Debugf (''Initialized '' @ fmtT (Value ob))] else [])"
  have "init_unit H ob i = (None, i\<lparr>trace := trace i @ ?ev\<rparr>)"
    using True assms by (simp add: init_unit_def log_eq)
  moreover have "\<forall>v. Init_calls v ?ev = inits_due H v [ob]"
    using True by (auto simp: inits_due_def)
  ultimately show ?thesis by blast
next
  case False
  have "init_unit H ob i = (None, i\<lparr>trace := trace i @ []\<rparr>)"
    using False by (simp add: init_unit_def)
  moreover have "\<forall>v. Init_calls v [] = inits_due H v [ob]"
    using False by (auto simp: inits_due_def)
  ultimately show ?thesis by blast
qed

subsection \<open>One batch, and the batch list\<close>

lemma run_units_ok:
  assumes "\<forall>ob\<in>set objs. implements (has_Init H) (Value ob) \<longrightarrow> Init H (Value ob) = None"
  shows "\<exists>ev. run_units H objs i = (None, i\<lparr>trace := trace i @ ev\<rparr>) \<and>
           (\<forall>v. Init_calls v ev = inits_due H v objs)"
  using assms
proof (induction objs arbitrary: i)
  case Nil
  have "run_units H [] i = (None, i\<lparr>trace := trace i @ []\<rparr>)" by simp
  moreover have "\<forall>v. Init_calls v [] = inits_due H v []" by (simp add: inits_due_def)
  ultimately show ?case by blast
next
  case (Cons ob objs)
  from Cons.prems obtain ev1 where
    u: "init_unit H ob i = (None, i\<lparr>trace := trace i @ ev1\<rparr>)"
    and c1: "\<forall>v. Init_calls v ev1 = inits_due H v [ob]"
    using init_unit_ok[of H ob i] by auto
  from Cons.prems Cons.IH[of "i\<lparr>trace := trace i @ ev1\<rparr>"] obtain ev2 where
    r: "run_units H objs (i\<lparr>trace := trace i @ ev1\<rparr>) =
          (None, i\<lparr>trace := trace i @ ev1 @ ev2\<rparr>)"
    and c2: "\<forall>v. Init_calls v ev2 = inits_due H v objs"
    by auto
  have "run_units H (ob # objs) i = (None, i\<lparr>trace := trace i @ (ev1 @ ev2)\<rparr>)"
    using u r by simp
  moreover have "\<forall>v. Init_calls v (ev1 @ ev2) = inits_due H v (ob # objs)"
    using c1 c2 by (simp add: inits_due_Cons[of H _ ob objs])
  ultimately show ?case by blast
qed

text \<open>
  Where the goroutines read the entries of their own iterations, the order in which they
  run does not change the counts. They do so from Go 1.22, and in a batch of one entry
  under every version.
\<close>

lemma captured_eq:
  assumes "loopvar H = PerIteration \<or> length objs \<le> 1"
  shows "captured H objs = objs"
proof (cases "loopvar H")
  case PerIteration
  have "seen PerIteration objs = (\<lambda>j. objs ! j)" by (rule ext) simp
  with PerIteration show ?thesis by (simp add: captured_def map_nth)
next
  case (Shared later)
  with assms have "length objs \<le> 1" by simp
  then have "objs = [] \<or> (\<exists>x. objs = [x])"
    by (cases objs) auto
  then show ?thesis using Shared by (auto simp: captured_def)
qed

lemma seen_in_set: "j < length objs \<Longrightarrow> seen lv objs j \<in> set objs"
  by (cases lv) (auto simp: min_def max_def)

lemma captured_subset: "set (captured H objs) \<subseteq> set objs"
  by (auto simp: captured_def seen_in_set)

lemma initAsync_ok:
  assumes "\<forall>ob\<in>set objs. implements (has_Init H) (Value ob) \<longrightarrow> Init H (Value ob) = None"
    and lv: "loopvar H = PerIteration \<or> length objs \<le> 1"
  shows "\<exists>ev. initAsync H objs i = (None, i\<lparr>trace := trace i @ ev\<rparr>) \<and>
           (\<forall>v. Init_calls v ev = inits_due H v objs)"
proof -
  let ?pre = "if 1 < length objs \<and> Logger i
    then [Debugf (''Asynchronously initializing: '' @ concat (map (\<lambda>obj. fmtT (Value obj)) objs))]
    else []"
  let ?i1 = "i\<lparr>trace := trace i @ ?pre\<rparr>"
  let ?run = "sort_key (sched H objs) objs"
  have a: "initAsync H objs i = run_units H ?run ?i1"
    by (simp add: initAsync_def log_eq captured_eq[OF lv])
  have "\<forall>ob\<in>set ?run. implements (has_Init H) (Value ob) \<longrightarrow> Init H (Value ob) = None"
    using assms(1) by simp
  then obtain ev where
    r: "run_units H ?run ?i1 = (None, ?i1\<lparr>trace := trace ?i1 @ ev\<rparr>)"
    and c: "\<forall>v. Init_calls v ev = inits_due H v ?run"
    using run_units_ok[of ?run H ?i1] by blast
  have "initAsync H objs i = (None, i\<lparr>trace := trace i @ (?pre @ ev)\<rparr>)"
    using a r by simp
  moreover have "\<forall>v. Init_calls v (?pre @ ev) = inits_due H v objs"
    using c inits_due_mset[of ?run objs H] by simp
  ultimately show ?thesis by blast
qed

lemma init_batches_ok:
  assumes "\<forall>ob\<in>set (concat bs). implements (has_Init H) (Value ob) \<longrightarrow> Init H (Value ob) = None"
    and "loopvar H = PerIteration \<or> (\<forall>b\<in>set bs. length b \<le> 1)"
  shows "\<exists>ev. init_batches H bs i = (None, i\<lparr>trace := trace i @ ev\<rparr>) \<and>
           (\<forall>v. Init_calls v ev = inits_due H v (concat bs))"
  using assms
proof (induction bs arbitrary: i)
  case Nil
  have "init_batches H [] i = (None, i\<lparr>trace := trace i @ []\<rparr>)" by simp
  moreover have "\<forall>v. Init_calls v [] = inits_due H v (concat [])" by (simp add: inits_due_def)
  ultimately show ?case by blast
next
  case (Cons b bs)
  have lb: "loopvar H = PerIteration \<or> length b \<le> 1"
    using Cons.prems(2) by auto
  have lbs: "loopvar H = PerIteration \<or> (\<forall>b\<in>set bs. length b \<le> 1)"
    using Cons.prems(2) by auto
  have okb: "\<forall>ob\<in>set b. implements (has_Init H) (Value ob) \<longrightarrow> Init H (Value ob) = None"
    using Cons.prems(1) by simp
  have okbs: "\<forall>ob\<in>set (concat bs).
      implements (has_Init H) (Value ob) \<longrightarrow> Init H (Value ob) = None"
    using Cons.prems(1) by simp
  from initAsync_ok[OF okb lb, of i] obtain ev1 where
    u: "initAsync H b i = (None, i\<lparr>trace := trace i @ ev1\<rparr>)"
    and c1: "\<forall>v. Init_calls v ev1 = inits_due H v b"
    by blast
  from Cons.IH[OF okbs lbs, of "i\<lparr>trace := trace i @ ev1\<rparr>"] obtain ev2 where
    r: "init_batches H bs (i\<lparr>trace := trace i @ ev1\<rparr>) =
          (None, i\<lparr>trace := trace i @ ev1 @ ev2\<rparr>)"
    and c2: "\<forall>v. Init_calls v ev2 = inits_due H v (concat bs)"
    by auto
  have "init_batches H (b # bs) i = (None, i\<lparr>trace := trace i @ (ev1 @ ev2)\<rparr>)"
    using u r by simp
  moreover have "\<forall>v. Init_calls v (ev1 @ ev2) = inits_due H v (concat (b # bs))"
    using c1 c2 by (simp add: inits_due_append)
  ultimately show ?case by blast
qed

subsection \<open>The relaxed entry point\<close>

lemma IGWIO_ok:
  assumes pop: "Populate R (g i) = (None, g')"
    and lv: "loopvar H = PerIteration \<or> (\<forall>b\<in>set (objects (InitSync i)). length b \<le> 1)"
    and ok: "\<forall>ob\<in>set (concat (objects (InitSync i))).
               implements (has_Init H) (Value ob) \<longrightarrow> Init H (Value ob) = None"
  shows "\<exists>i'. InitializeGraphWithImplicitObjects R H i = (None, i') \<and>
           g i' = g' \<and> objects i' = objects (InitSync i) \<and>
           (\<forall>v. Init_calls v (trace i') =
              Init_calls v (trace i) + inits_due H v (concat (objects (InitSync i))))"
proof -
  let ?i2 = "log (''Initializing '' @ fmtd (length (objects (InitSync i))) @ '' objects'')
               (InitSync i)"
  let ?i3 = "?i2\<lparr>g := g'\<rparr>"
  have a: "InitializeGraphWithImplicitObjects R H i = init_batches H (objects (InitSync i)) ?i3"
    using pop by (simp add: InitializeGraphWithImplicitObjects_def Let_def)
  from init_batches_ok[OF ok lv, of ?i3] obtain ev where
    r: "init_batches H (objects (InitSync i)) ?i3 = (None, ?i3\<lparr>trace := trace ?i3 @ ev\<rparr>)"
    and c: "\<forall>v. Init_calls v ev = inits_due H v (concat (objects (InitSync i)))"
    by blast
  let ?i' = "?i3\<lparr>trace := trace ?i3 @ ev\<rparr>"
  have "InitializeGraphWithImplicitObjects R H i = (None, ?i')"
    using a r by simp
  moreover have "g ?i' = g'" by simp
  moreover have "objects ?i' = objects (InitSync i)" by simp
  moreover have "\<forall>v. Init_calls v (trace ?i') =
      Init_calls v (trace i) + inits_due H v (concat (objects (InitSync i)))"
    using c by (simp add: trace_log)
  ultimately show ?thesis by blast
qed

subsection \<open>A failing hook\<close>

text \<open>
  Whatever the order of the goroutines, a panic of the relaxed initialization after a
  successful \<open>Populate\<close> comes from an entry whose \<open>Init\<close> returned an error, and the
  message is the same fixed text followed by that error: it does not depend on the entry.
\<close>

lemma run_units_panic:
  "fst (run_units H objs i) = Some p \<Longrightarrow>
     \<exists>ob\<in>set objs. \<exists>err. implements (has_Init H) (Value ob) \<and> Init H (Value ob) = Some err \<and>
       p = PanicString (''Error initializing privided object *inject.Object:'' @ err)"
proof (induction objs arbitrary: i)
  case Nil
  then show ?case by simp
next
  case (Cons ob objs)
  obtain q j where u: "init_unit H ob i = (q, j)" by (cases "init_unit H ob i")
  show ?case
  proof (cases q)
    case None
    with u Cons.prems have "fst (run_units H objs j) = Some p" by simp
    from Cons.IH[OF this] show ?thesis by auto
  next
    case (Some a)
    with u Cons.prems have pa: "fst (init_unit H ob i) = Some p" by simp
    then have im: "implements (has_Init H) (Value ob)"
      by (auto simp: init_unit_def split: if_splits)
    with pa obtain err where e: "Init H (Value ob) = Some err"
      by (cases "Init H (Value ob)") (auto simp: init_unit_def Let_def)
    from init_unit_panic[OF im e, of i] pa
    have "p = PanicString (''Error initializing privided object *inject.Object:'' @ err)"
      by simp
    with im e show ?thesis by auto
  qed
qed

lemma initAsync_panic:
  assumes "fst (initAsync H objs i) = Some p"
  shows "\<exists>ob\<in>set objs. \<exists>err. implements (has_Init H) (Value ob) \<and>
           Init H (Value ob) = Some err \<and>
           p = PanicString (''Error initializing privided object *inject.Object:'' @ err)"
proof -
  from assms have
    "fst (run_units H (sort_key (sched H objs) (captured H objs))
       (if length objs > 1
        then log (''Asynchronously initializing: '' @ concat (map (\<lambda>obj. fmtT (Value obj)) objs)) i
        else i)) = Some p"
    unfolding initAsync_def .
  from run_units_panic[OF this] obtain ob err where
    m: "ob \<in> set (captured H objs)"
    and f: "implements (has_Init H) (Value ob)" "Init H (Value ob) = Some err"
      "p = PanicString (''Error initializing privided object *inject.Object:'' @ err)"
    by auto
  from m captured_subset[of H objs] have "ob \<in> set objs" by blast
  with f show ?thesis by blast
qed

lemma init_batches_panic:
  "fst (init_batches H bs i) = Some p \<Longrightarrow>
     \<exists>ob\<in>set (concat bs). \<exists>err. implements (has_Init H) (Value ob) \<and>
       Init H (Value ob) = Some err \<and>
       p = PanicString (''Error initializing privided object *inject.Object:'' @ err)"
proof (induction bs arbitrary: i)
  case Nil
  then show ?case by simp
next
  case (Cons b bs)
  obtain q j where u: "initAsync H b i = (q, j)" by (cases "initAsync H b i")
  show ?case
  proof (cases q)
    case None
    with u Cons.prems have "fst (init_batches H bs j) = Some p" by simp
    from Cons.IH[OF this] show ?thesis by auto
  next
    case (Some a)
    with u Cons.prems have "fst (initAsync H b i) = Some p" by simp
    from initAsync_panic[OF this] show ?thesis by auto
  qed
qed

lemma IGWIO_panic:
  assumes "Populate R (g i) = (None, g')"
    and "fst (InitializeGraphWithImplicitObjects R H i) = Some p"
  shows "\<exists>ob\<in>set (concat (objects (InitSync i))). \<exists>err.
           implements (has_Init H) (Value ob) \<and> Init H (Value ob) = Some err \<and>
           p = PanicString (''Error initializing privided object *inject.Object:'' @ err)"
  using assms init_batches_panic[of H "objects (InitSync i)" _ p]
  by (simp add: InitializeGraphWithImplicitObjects_def Let_def)

text \<open>
  Claim C5. An \<open>Init\<close> that returns an error ends the initialization with a panic, and
  the message carries the error text. The type in the message is not the object's: the
  code formats the entry \<open>obj\<close>, so the message reads \<open>*inject.Object\<close> for an object
  of type \<open>*diwrapper.InitializableStruct\<close>, where the log lines of the same goroutine
  format \<open>obj.Value\<close>.
\<close>

theorem Init_error_message_has_entry_type:
  "fmtT initializable = ''*diwrapper.InitializableStruct'' \<and>
   fst (InitializeGraphWithImplicitObjects list_resolver
          (test_hooks (Some ''connection refused'') None)
          (snd (WithObject list_resolver initializable (New list_resolver)))) =
     Some (PanicString
       ''Error initializing privided object *inject.Object:connection refused'')"
  by (simp add: initializable_def ptr_type_def list_resolver_def test_hooks_def New_def
      WithObject_def log_def InitSync_def InitializeGraphWithImplicitObjects_def initAsync_def init_unit_def
      captured_def Let_def fmtd.simps digit_def)

section \<open>The strict check\<close>

text \<open>A value compared by its payload equals itself and nothing else.\<close>

lemma iface_eq_Ref: "type_comparable t \<Longrightarrow> iface_eq w (Ref t a) = Inr (w = Ref t a)"
  by (cases w) auto

lemma found_by_eq_Ref:
  "type_comparable t \<Longrightarrow> found_by_eq (Ref t a) entries \<longleftrightarrow> Ref t a \<in> Value ` set entries"
  by (force simp: found_by_eq_def compares_def equals_some_def iface_eq_Ref list_all_iff
      list_ex_iff)

lemma scan_batch_ok:
  "compares v objs \<Longrightarrow> scan_batch v objs b = Inr (b \<or> equals_some v objs)"
proof (induction objs arbitrary: b)
  case Nil
  show ?case by (simp add: equals_some_def)
next
  case (Cons ob objs)
  from Cons.prems obtain eq where e: "iface_eq (Value ob) v = Inr eq"
    by (cases "iface_eq (Value ob) v") (auto simp: compares_def)
  from Cons.prems have "compares v objs" by (simp add: compares_def)
  from Cons.IH[OF this] e show ?case
    by (auto simp: equals_some_def)
qed

lemma scan_batches_ok:
  "compares v (concat bs) \<Longrightarrow> scan_batches v bs b = Inr (b \<or> equals_some v (concat bs))"
proof (induction bs arbitrary: b)
  case Nil
  show ?case by (simp add: equals_some_def)
next
  case (Cons objs bs)
  from Cons.prems have c1: "compares v objs" and c2: "compares v (concat bs)"
    by (simp_all add: compares_def)
  from scan_batch_ok[OF c1] Cons.IH[OF c2] show ?case
    by (auto simp: equals_some_def)
qed

text \<open>
  Where no comparison panics, the check panics at the first object of the graph that
  equals no value of the batch list, and names its type.
\<close>

lemma check_objects_fst:
  assumes "\<forall>ob\<in>set obs. compares (Value ob) (concat (objects i))"
  shows "fst (check_objects obs i) =
    (case find (\<lambda>ob. \<not> equals_some (Value ob) (concat (objects i))) obs of
       None \<Rightarrow> None
     | Some ob \<Rightarrow> Some (PanicString (fmtT (Value ob) @ '' not explicitly created'')))"
  using assms
proof (induction obs arbitrary: i)
  case Nil
  show ?case by simp
next
  case (Cons ob obs)
  have s: "scan_batches (Value ob) (objects i) False =
             Inr (equals_some (Value ob) (concat (objects i)))"
    using Cons.prems by (simp add: scan_batches_ok)
  show ?case
  proof (cases "equals_some (Value ob) (concat (objects i))")
    case True
    then show ?thesis
      using s Cons.prems Cons.IH[of "log (fmtT (Value ob) @ '' OK'' @ [CHR 0x0A]) i"]
      by simp
  next
    case False
    then show ?thesis using s by simp
  qed
qed

lemma check_objects_ok:
  assumes "\<forall>ob\<in>set obs. found_by_eq (Value ob) (concat (objects i))"
  shows "\<exists>ev. check_objects obs i = (None, i\<lparr>trace := trace i @ ev\<rparr>) \<and>
           (\<forall>v. Init_calls v ev = 0)"
  using assms
proof (induction obs arbitrary: i)
  case Nil
  have "check_objects [] i = (None, i\<lparr>trace := trace i @ []\<rparr>)" by simp
  moreover have "\<forall>v. Init_calls v [] = 0" by simp
  ultimately show ?case by blast
next
  case (Cons ob obs)
  let ?ev1 = "if Logger i then [Debugf (fmtT (Value ob) @ '' OK'' @ [CHR 0x0A])] else []"
  let ?i1 = "i\<lparr>trace := trace i @ ?ev1\<rparr>"
  have s: "scan_batches (Value ob) (objects i) False = Inr True"
    using Cons.prems by (simp add: scan_batches_ok found_by_eq_def)
  from Cons.prems Cons.IH[of ?i1] obtain ev2 where
    r: "check_objects obs ?i1 = (None, ?i1\<lparr>trace := trace ?i1 @ ev2\<rparr>)"
    and c2: "\<forall>v. Init_calls v ev2 = 0"
    by auto
  have "check_objects (ob # obs) i = (None, i\<lparr>trace := trace i @ (?ev1 @ ev2)\<rparr>)"
    using s r by (cases "Logger i") (simp_all add: log_eq)
  moreover have "\<forall>v. Init_calls v (?ev1 @ ev2) = 0"
    using c2 by simp
  ultimately show ?case by blast
qed

lemma CheckNoImplicitObjects_panics_iff:
  assumes "\<forall>ob\<in>set (Objects R (g i)). compares (Value ob) (concat (objects i))"
  shows "fst (CheckNoImplicitObjects R i) \<noteq> None \<longleftrightarrow>
           (\<exists>ob\<in>set (Objects R (g i)). \<not> equals_some (Value ob) (concat (objects i)))"
proof -
  let ?P = "\<lambda>ob. \<not> equals_some (Value ob) (concat (objects i))"
  have "fst (CheckNoImplicitObjects R i) \<noteq> None \<longleftrightarrow> find ?P (Objects R (g i)) \<noteq> None"
    using check_objects_fst[OF assms]
    by (simp add: CheckNoImplicitObjects_def split: option.splits)
  then show ?thesis by (auto simp: find_None_iff)
qed

lemma CheckNoImplicitObjects_message:
  assumes "\<forall>ob\<in>set (Objects R (g i)). compares (Value ob) (concat (objects i))"
    and "fst (CheckNoImplicitObjects R i) = Some p"
  shows "\<exists>ob\<in>set (Objects R (g i)). \<not> equals_some (Value ob) (concat (objects i)) \<and>
           p = PanicString (fmtT (Value ob) @ '' not explicitly created'')"
proof -
  let ?P = "\<lambda>ob. \<not> equals_some (Value ob) (concat (objects i))"
  from assms(2) check_objects_fst[OF assms(1)] obtain ob where
    f: "find ?P (Objects R (g i)) = Some ob"
    and p: "p = PanicString (fmtT (Value ob) @ '' not explicitly created'')"
    by (auto simp: CheckNoImplicitObjects_def split: option.splits)
  from f have "ob \<in> set (Objects R (g i)) \<and> ?P ob"
    by (auto simp: find_Some_iff)
  with p show ?thesis by blast
qed

text \<open>
  Two values of comparable types that the check does not treat as found although they
  are registered: a NaN equals nothing, and comparing the struct with itself reaches the
  map in its field.
\<close>

lemma eq_of_odd_values:
  "iface_eq not_a_number not_a_number = Inr False \<and>
   iface_eq boxed_map boxed_map =
     Inl (RuntimeError ''comparing uncomparable type map[string]string'')"
  by (simp add: not_a_number_def boxed_map_def map_type_def)

text \<open>The relaxed entry point never runs the check: it returns with an implicit object.\<close>

lemma relaxed_tolerates_implicit_object:
  "InitializeGraph R H i =
     (case InitializeGraphWithImplicitObjects R H i of
        (Some p, i') \<Rightarrow> (Some p, i')
      | (None, i') \<Rightarrow> CheckNoImplicitObjects R i') \<and>
   fst (InitializeGraphWithImplicitObjects (creating_resolver aaa) (test_hooks None None)
          (snd (WithObject (creating_resolver aaa) bbb (New (creating_resolver aaa))))) = None \<and>
   fst (InitializeGraph (creating_resolver aaa) (test_hooks None None)
          (snd (WithObject (creating_resolver aaa) bbb (New (creating_resolver aaa))))) =
     Some (PanicString ''*diwrapper.Aaa not explicitly created'')"
  by (simp add: creating_resolver_def list_resolver_def aaa_def bbb_def ptr_type_def
      test_hooks_def New_def WithObject_def InitializeGraph_def CheckNoImplicitObjects_def
      log_def InitSync_def InitializeGraphWithImplicitObjects_def initAsync_def init_unit_def
      captured_def Let_def fmtd.simps digit_def)

text \<open>
  Claim C2. \<open>InitializeGraph\<close> is the relaxed initialization followed by the check, and
  where no comparison panics the check panics exactly when the graph holds an object that
  equals no value of the batch list (the lemmas \<open>CheckNoImplicitObjects_panics_iff\<close>,
  \<open>CheckNoImplicitObjects_message\<close> and \<open>relaxed_tolerates_implicit_object\<close>). The
  check also panics where the
  claim says it does not: a map registered under a name is the only object of the graph
  and is in the batch list, the relaxed initialization returns, and the check compares
  the map with itself, which is a run-time error in Go.
\<close>

theorem CheckNoImplicitObjects_uncomparable:
  "fst (InitializeGraphWithImplicitObjects list_resolver (test_hooks None None)
          (snd (WithNamedObject list_resolver ''cfg'' settings (New list_resolver)))) = None \<and>
   map Value (Objects list_resolver
     (g (snd (InitializeGraphWithImplicitObjects list_resolver (test_hooks None None)
          (snd (WithNamedObject list_resolver ''cfg'' settings (New list_resolver))))))) =
     [settings] \<and>
   AllObjects (snd (InitializeGraphWithImplicitObjects list_resolver (test_hooks None None)
          (snd (WithNamedObject list_resolver ''cfg'' settings (New list_resolver))))) =
     [settings] \<and>
   fst (InitializeGraph list_resolver (test_hooks None None)
          (snd (WithNamedObject list_resolver ''cfg'' settings (New list_resolver)))) =
     Some (RuntimeError ''comparing uncomparable type map[string]string'')"
  by (simp add: settings_def map_type_def list_resolver_def test_hooks_def New_def
      WithNamedObject_def AllObjects_def InitializeGraph_def CheckNoImplicitObjects_def
      log_def InitSync_def InitializeGraphWithImplicitObjects_def initAsync_def init_unit_def
      captured_def Let_def fmtd.simps digit_def)

section \<open>The strict entry point\<close>

text \<open>
  Claim C1, with the conditions the code needs. Let \<open>Populate\<close> succeed; let \<open>Init\<close>
  return nil on every entry that has it; let every object of the populated graph be found
  by \<open>==\<close> among the values of the batch list, no comparison panicking; and let the
  goroutines read the entries of their own iterations, which they do when every batch
  holds one entry (the default path, without \<open>InitAsync\<close>) or the program is built with
  the loop variables of Go 1.22. Then \<open>InitializeGraph\<close> returns without a panic, and it
  has called \<open>Init\<close> on each value that has the method once for every entry of the batch
  list holding that value: exactly once on an object that was registered once.
\<close>

theorem InitializeGraph_inits_each_entry:
  assumes pop: "Populate R (g i) = (None, g')"
    and lv: "loopvar H = PerIteration \<or> (\<forall>b\<in>set (objects (InitSync i)). length b \<le> 1)"
    and ok: "\<forall>ob\<in>set (concat (objects (InitSync i))).
               implements (has_Init H) (Value ob) \<longrightarrow> Init H (Value ob) = None"
    and expl: "\<forall>ob\<in>set (Objects R g').
               found_by_eq (Value ob) (concat (objects (InitSync i)))"
  shows "\<exists>i'. InitializeGraph R H i = (None, i') \<and>
           (\<forall>v. Init_calls v (trace i') = Init_calls v (trace i) +
              (if implements (has_Init H) v
               then count_list (map Value (concat (objects (InitSync i)))) v else 0))"
proof -
  from IGWIO_ok[OF pop lv ok] obtain j where
    a: "InitializeGraphWithImplicitObjects R H i = (None, j)"
    and gj: "g j = g'" and oj: "objects j = objects (InitSync i)"
    and c: "\<forall>v. Init_calls v (trace j) =
              Init_calls v (trace i) + inits_due H v (concat (objects (InitSync i)))"
    by blast
  have "\<forall>ob\<in>set (Objects R (g j)). found_by_eq (Value ob) (concat (objects j))"
    using expl by (simp only: gj oj)
  then obtain ev2 where
    r: "check_objects (Objects R (g j)) j = (None, j\<lparr>trace := trace j @ ev2\<rparr>)"
    and c2: "\<forall>v. Init_calls v ev2 = 0"
    using check_objects_ok[of "Objects R (g j)" j] by blast
  have "InitializeGraph R H i = (None, j\<lparr>trace := trace j @ ev2\<rparr>)"
    using a r by (simp add: InitializeGraph_def CheckNoImplicitObjects_def)
  moreover have "\<forall>v. Init_calls v (trace (j\<lparr>trace := trace j @ ev2\<rparr>)) =
      Init_calls v (trace i) +
        (if implements (has_Init H) v
         then count_list (map Value (concat (objects (InitSync i)))) v else 0)"
    using c c2 by (simp add: inits_due_count)
  ultimately show ?thesis by blast
qed

text \<open>
  The test \<open>TestSimple\<close>, with a second object that has no \<open>Init\<close>, in a build before
  Go 1.22: on the default path every batch holds one entry.
\<close>

theorem InitializeGraph_inits_each_entry_witness:
  "fst (InitializeGraph list_resolver (old_go_hooks None None)
          (snd (WithObjects list_resolver [initializable, stoppable] (New list_resolver)))) = None \<and>
   Init_calls initializable
     (trace (snd (InitializeGraph list_resolver (old_go_hooks None None)
          (snd (WithObjects list_resolver [initializable, stoppable] (New list_resolver)))))) = 1"
proof -
  let ?R = "list_resolver"
  let ?H = "old_go_hooks None None"
  let ?i = "snd (WithObjects ?R [initializable, stoppable] (New ?R))"
  let ?g = "[\<lparr>Name = '''', Value = initializable\<rparr>, \<lparr>Name = '''', Value = stoppable\<rparr>]"
  have h1: "Populate ?R (g ?i) = (None, ?g)"
    by (simp add: list_resolver_def New_def WithObject_def log_def Let_def)
  have h2: "loopvar ?H = PerIteration \<or> (\<forall>b\<in>set (objects (InitSync ?i)). length b \<le> 1)"
    by (simp add: list_resolver_def New_def WithObject_def log_def Let_def)
  have h3: "\<forall>ob\<in>set (concat (objects (InitSync ?i))).
              implements (has_Init ?H) (Value ob) \<longrightarrow> Init ?H (Value ob) = None"
    by (simp add: old_go_hooks_def test_hooks_def)
  have h4: "\<forall>ob\<in>set (Objects ?R ?g).
              found_by_eq (Value ob) (concat (objects (InitSync ?i)))"
    by (simp add: list_resolver_def New_def WithObject_def log_def Let_def found_by_eq_def
        compares_def equals_some_def initializable_def stoppable_def ptr_type_def)
  have c: "Init_calls initializable (trace ?i) = 0 \<and> implements (has_Init ?H) initializable \<and>
           count_list (map Value (concat (objects (InitSync ?i)))) initializable = 1"
    by (simp add: list_resolver_def New_def WithObject_def log_def Let_def old_go_hooks_def
        test_hooks_def initializable_def stoppable_def ptr_type_def)
  from InitializeGraph_inits_each_entry[OF h1 h2 h3 h4] c show ?thesis
    by auto
qed

text \<open>
  Claim C1 as it is worded fails in six ways, each with \<open>Populate\<close> succeeding. An
  \<open>Init\<close> that returns an error makes \<open>InitializeGraph\<close> panic. An object that
  \<open>Populate\<close> creates to satisfy a field, as in the test \<open>TestInjectionNotProvided\<close>,
  makes the strict check panic. An object registered under two names has \<open>Init\<close> called
  twice. A registered value of an uncomparable type makes the strict check panic, and so
  does a registered NaN, which equals nothing. In a build before Go 1.22, in a batch of
  two closed with \<open>InitAsync\<close>, both goroutines read the last entry, and \<open>Init\<close> is not
  called on the first.
\<close>

theorem InitializeGraph_claim_counterexample:
  "fst (InitializeGraph list_resolver (test_hooks (Some ''boom'') None)
          (snd (WithObject list_resolver initializable (New list_resolver)))) =
     Some (PanicString ''Error initializing privided object *inject.Object:boom'') \<and>
   fst (InitializeGraph (creating_resolver aaa) (test_hooks None None)
          (snd (WithObject (creating_resolver aaa) bbb (New (creating_resolver aaa))))) =
     Some (PanicString ''*diwrapper.Aaa not explicitly created'') \<and>
   Init_calls initializable
     (trace (snd (InitializeGraph list_resolver (test_hooks None None)
        (snd (WithNamedObject list_resolver ''b'' initializable
           (snd (WithNamedObject list_resolver ''a'' initializable (New list_resolver)))))))) = 2 \<and>
   fst (InitializeGraph list_resolver (test_hooks None None)
          (snd (WithNamedObject list_resolver ''cfg'' settings
             (snd (WithObject list_resolver initializable (New list_resolver)))))) =
     Some (RuntimeError ''comparing uncomparable type map[string]string'') \<and>
   fst (InitializeGraph list_resolver (test_hooks None None)
          (snd (WithNamedObject list_resolver ''x'' not_a_number (New list_resolver)))) =
     Some (PanicString ''float64 not explicitly created'') \<and>
   fst (InitializeGraph list_resolver (old_go_hooks None None)
          (InitAsync (snd (WithObjects list_resolver [initializable, stoppable]
             (New list_resolver))))) = None \<and>
   Init_calls initializable
     (trace (snd (InitializeGraph list_resolver (old_go_hooks None None)
          (InitAsync (snd (WithObjects list_resolver [initializable, stoppable]
             (New list_resolver))))))) = 0"
  by (simp add: initializable_def stoppable_def aaa_def bbb_def settings_def not_a_number_def
      ptr_type_def map_type_def list_resolver_def creating_resolver_def test_hooks_def
      old_go_hooks_def New_def WithObject_def WithNamedObject_def InitAsync_def
      InitializeGraph_def CheckNoImplicitObjects_def captured_def
      log_def InitSync_def InitializeGraphWithImplicitObjects_def initAsync_def init_unit_def
      Let_def fmtd.simps digit_def)

end
